theory Spec2Isabelle
  imports Complex_Main "HOL-Library.Multiset"
begin

section \<open>Author network force layout: the data-load callback of script.js\<close>

text \<open>
  The program is one script: \<^verbatim>\<open>d3.json("authors_network.json").then(graph => { ... })\<close>.
  The callback derives a degree per node and a count per country, builds two scales,
  binds circles and lines, and installs the click, drag, tick and resize handlers.
  Each handler is embedded as a function from the state it reads to the state it leaves.
\<close>

subsection \<open>Input document\<close>

text \<open>
  The shape the source expects (script.js line 12):
  \<^verbatim>\<open>{ nodes:[{id,name,affiliation,country}], links:[{source,target,weight}] }\<close>.
  An absent optional field reads as \<^verbatim>\<open>undefined\<close>, here \<open>None\<close>. The identifier type
  \<open>'id\<close> stands for the primitive values (strings, numbers) that a JavaScript \<^verbatim>\<open>Map\<close>
  compares by value.
\<close>

record 'id author =
  node_id :: 'id
  node_name :: "string option"
  affiliation :: "string option"
  country :: "string option"

record 'id link =
  source :: 'id
  target :: 'id
  weight :: "real option"

record 'id graph_doc =
  nodes :: "'id author list"
  links :: "'id link list"

text \<open>The node object after line 22: the copied fields and the derived \<^verbatim>\<open>degree\<close>.\<close>

record 'id node =
  n_id :: 'id
  n_name :: "string option"
  n_affiliation :: "string option"
  n_country :: "string option"
  degree :: nat

subsection \<open>Library operations the script calls\<close>

text \<open>
  Modelled from the spec: \<^verbatim>\<open>d3.rollup(values, reduce, key)\<close> is a function of the d3
  library, which is not part of the repository. The spec (4.1) describes it as partitioning
  the values by key and counting each part; d3 keeps the parts in a \<^verbatim>\<open>Map\<close>, whose
  iteration order is the order in which the keys were first inserted. The association list
  below keeps that order: a value of a new key opens a group at the end, a value of a known
  key is pushed onto that key's group.
\<close>

fun group_add :: "'k \<Rightarrow> 'v \<Rightarrow> ('k \<times> 'v list) list \<Rightarrow> ('k \<times> 'v list) list" where
  "group_add k v [] = [(k, [v])]"
| "group_add k v ((k', g) # m) =
     (if k' = k then (k', g @ [v]) # m else (k', g) # group_add k v m)"

fun groups_from :: "('v \<Rightarrow> 'k) \<Rightarrow> ('k \<times> 'v list) list \<Rightarrow> 'v list \<Rightarrow> ('k \<times> 'v list) list" where
  "groups_from key m [] = m"
| "groups_from key m (v # vs) = groups_from key (group_add (key v) v m) vs"

definition rollup :: "'v list \<Rightarrow> ('v list \<Rightarrow> 'r) \<Rightarrow> ('v \<Rightarrow> 'k) \<Rightarrow> ('k \<times> 'r) list" where
  "rollup vals reduce key = map (\<lambda>(k, g). (k, reduce g)) (groups_from key [] vals)"

text \<open>\<^verbatim>\<open>Map.prototype.get\<close>: the value stored under the key, or \<^verbatim>\<open>undefined\<close>.\<close>

definition map_get :: "('k \<times> 'r) list \<Rightarrow> 'k \<Rightarrow> 'r option" where
  "map_get m k = map_of m k"

subsection \<open>Degree (script.js lines 17--22)\<close>

text \<open>\<^verbatim>\<open>links.flatMap(l => [l.source, l.target])\<close>\<close>

definition endpoints :: "'id link list \<Rightarrow> 'id list" where
  "endpoints ls = concat (map (\<lambda>l. [source l, target l]) ls)"

text \<open>\<^verbatim>\<open>d3.rollup(links.flatMap(...), v => v.length, d => d)\<close>\<close>

definition degree_map :: "'id link list \<Rightarrow> ('id \<times> nat) list" where
  "degree_map ls = rollup (endpoints ls) length (\<lambda>d. d)"

text \<open>
  \<^verbatim>\<open>degree.get(n.id) || 0\<close>: a missing key and a stored 0 both read as 0.
\<close>

definition degree_of :: "'id link list \<Rightarrow> 'id \<Rightarrow> nat" where
  "degree_of ls i = (case map_get (degree_map ls) i of None \<Rightarrow> 0 | Some c \<Rightarrow> if c = 0 then 0 else c)"

text \<open>
  \<^verbatim>\<open>raw.nodes.map(d => ({ ...d }))\<close> followed by
  \<^verbatim>\<open>nodes.forEach(n => n.degree = degree.get(n.id) || 0)\<close>.
\<close>

definition with_degree :: "'id link list \<Rightarrow> 'id author \<Rightarrow> 'id node" where
  "with_degree ls a =
     \<lparr>n_id = node_id a, n_name = node_name a, n_affiliation = affiliation a,
      n_country = country a, degree = degree_of ls (node_id a)\<rparr>"

definition derive_nodes :: "'id graph_doc \<Rightarrow> 'id node list" where
  "derive_nodes raw = map (with_degree (links raw)) (nodes raw)"

subsection \<open>Configuration (script.js lines 5--7)\<close>

definition RADIUS_RANGE :: "real \<times> real" where
  "RADIUS_RANGE = (3, 12)"

definition FALLBACK_GRAY :: string where
  "FALLBACK_GRAY = ''#A9A9A9''"

text \<open>The constant \<^verbatim>\<open>d3.schemeTableau10\<close> of the library, as d3 publishes it.\<close>

definition schemeTableau10 :: "string list" where
  "schemeTableau10 =
     [''#4e79a7'', ''#f28e2c'', ''#e15759'', ''#76b7b2'', ''#59a14f'',
      ''#edc949'', ''#af7aa1'', ''#ff9da7'', ''#9c755f'', ''#bab0ab'']"

subsection \<open>Countries (script.js lines 25--38)\<close>

text \<open>
  \<^verbatim>\<open>d.country || 'Unknown'\<close>: an absent country and the empty string are falsy.
\<close>

definition country_key :: "'id node \<Rightarrow> string" where
  "country_key d =
     (case n_country d of None \<Rightarrow> ''Unknown'' | Some c \<Rightarrow> if c = [] then ''Unknown'' else c)"

definition byCountry :: "'id node list \<Rightarrow> (string \<times> nat) list" where
  "byCountry ns = rollup ns length country_key"

text \<open>The objects \<^verbatim>\<open>{ country: k, n: v }\<close> of line 31.\<close>

record row =
  row_country :: string
  row_n :: nat

text \<open>
  \<^verbatim>\<open>d3.descending(a, b)\<close> on numbers: \<^verbatim>\<open>b < a ? -1 : b > a ? 1 : 0\<close>.
\<close>

definition descending :: "nat \<Rightarrow> nat \<Rightarrow> int" where
  "descending a b = (if b < a then - 1 else if b > a then 1 else 0)"

text \<open>
  \<^verbatim>\<open>Array.prototype.sort(compare)\<close> is a stable sort (ECMAScript 2019): elements the
  comparator calls equal keep their order. With a comparator that is a consistent ordering
  the result is unique, and inserting the elements from the right, each before the first
  element it does not follow, computes it.
\<close>

fun insert_by :: "('a \<Rightarrow> 'a \<Rightarrow> int) \<Rightarrow> 'a \<Rightarrow> 'a list \<Rightarrow> 'a list" where
  "insert_by cmp v [] = [v]"
| "insert_by cmp v (y # ys) = (if cmp v y \<le> 0 then v # y # ys else y # insert_by cmp v ys)"

definition array_sort :: "('a \<Rightarrow> 'a \<Rightarrow> int) \<Rightarrow> 'a list \<Rightarrow> 'a list" where
  "array_sort cmp vs = foldr (insert_by cmp) vs []"

text \<open>\<^verbatim>\<open>Array.from(byCountry, ([k, v]) => ({ country: k, n: v }))\<close>\<close>

definition country_rows :: "'id node list \<Rightarrow> row list" where
  "country_rows ns = map (\<lambda>(k, v). \<lparr>row_country = k, row_n = v\<rparr>) (byCountry ns)"

definition sortedCountries :: "'id node list \<Rightarrow> row list" where
  "sortedCountries ns = array_sort (\<lambda>a b. descending (row_n a) (row_n b)) (country_rows ns)"

text \<open>
  \<^verbatim>\<open>new Set(sortedCountries.slice(0, 10).map(d => d.country))\<close>, kept as the list of its
  members in insertion order; \<^verbatim>\<open>top10.has(d.country)\<close> is asked with the node's raw
  \<^verbatim>\<open>country\<close> field, which is \<^verbatim>\<open>undefined\<close> when absent, and the set holds strings only.
\<close>

definition top10 :: "'id node list \<Rightarrow> string list" where
  "top10 ns = map row_country (take 10 (sortedCountries ns))"

definition set_has :: "string list \<Rightarrow> string option \<Rightarrow> bool" where
  "set_has s v = (case v of None \<Rightarrow> False | Some c \<Rightarrow> c \<in> set s)"

text \<open>
  Modelled from the spec: \<^verbatim>\<open>d3.scaleOrdinal().domain(keys).range(colors)\<close> is a function of
  the d3 library, which is not part of the repository. The spec (4.2) describes a fixed palette
  handed out to the domain's keys in their order. d3 keeps the domain as a list without
  repetitions; a call with a key at position \<open>i\<close> returns \<^verbatim>\<open>range[i % range.length]\<close>, and a
  call with a key that is not in the domain first appends it. The scale is therefore a state:
  the call returns the colour and the domain it leaves. The script builds one such scale, over
  the ten-colour palette, so the index \<open>i mod length rng\<close> is always within the range.
\<close>

definition ordinal_domain :: "'a list \<Rightarrow> 'a list" where
  "ordinal_domain ks = foldl (\<lambda>dmn k. if k \<in> set dmn then dmn else dmn @ [k]) [] ks"

fun index_of :: "'a list \<Rightarrow> 'a \<Rightarrow> nat option" where
  "index_of [] d = None"
| "index_of (k # ks) d = (if k = d then Some 0 else map_option Suc (index_of ks d))"

definition scaleOrdinal :: "string list \<Rightarrow> 'a list \<Rightarrow> 'a \<Rightarrow> string \<times> 'a list" where
  "scaleOrdinal rng dmn d =
     (case index_of dmn d of
        Some i \<Rightarrow> (rng ! (i mod length rng), dmn)
      | None \<Rightarrow> (rng ! (length dmn mod length rng), dmn @ [d]))"

text \<open>The scale \<^verbatim>\<open>color\<close> of line 36: its initial domain, and a call of it.\<close>

definition color_domain :: "'id node list \<Rightarrow> string list" where
  "color_domain ns = ordinal_domain (map row_country (take 10 (sortedCountries ns)))"

definition color :: "string list \<Rightarrow> string \<Rightarrow> string \<times> string list" where
  "color dmn c = scaleOrdinal schemeTableau10 dmn c"

text \<open>
  Line 80, \<^verbatim>\<open>top10.has(d.country) ? color(d.country) : FALLBACK_GRAY\<close>, for one node and
  then for the nodes in order, the scale's domain passed along.
\<close>

definition node_fill :: "string list \<Rightarrow> string list \<Rightarrow> 'id node \<Rightarrow> string \<times> string list" where
  "node_fill t dmn d =
     (if set_has t (n_country d)
      then (case n_country d of Some c \<Rightarrow> color dmn c | None \<Rightarrow> (FALLBACK_GRAY, dmn))
      else (FALLBACK_GRAY, dmn))"

fun fills_from :: "string list \<Rightarrow> string list \<Rightarrow> 'id node list \<Rightarrow> string list \<times> string list" where
  "fills_from t dmn [] = ([], dmn)"
| "fills_from t dmn (d # ds) =
     (case node_fill t dmn d of (c, dmn') \<Rightarrow>
        (case fills_from t dmn' ds of (cs, dmn'') \<Rightarrow> (c # cs, dmn'')))"

definition fill_colors :: "'id node list \<Rightarrow> string list" where
  "fill_colors ns = fst (fills_from (top10 ns) (color_domain ns) ns)"

text \<open>
  Lines 211--218: one legend item per row of \<^verbatim>\<open>sortedCountries.slice(0, 10)\<close>, with the
  swatch \<^verbatim>\<open>color(row.country)\<close> and the text made of \<^verbatim>\<open>row.country\<close> and \<^verbatim>\<open>row.n\<close>.
  The legend is drawn after the circles, so its calls start from the domain the fills left.
\<close>

fun legend_from :: "string list \<Rightarrow> row list \<Rightarrow> (string \<times> string \<times> nat) list" where
  "legend_from dmn [] = []"
| "legend_from dmn (r # rs) =
     (case color dmn (row_country r) of (c, dmn') \<Rightarrow>
        (c, row_country r, row_n r) # legend_from dmn' rs)"

definition legend :: "'id node list \<Rightarrow> (string \<times> string \<times> nat) list" where
  "legend ns =
     legend_from (snd (fills_from (top10 ns) (color_domain ns) ns)) (take 10 (sortedCountries ns))"

subsection \<open>Node size (script.js lines 41--43)\<close>

text \<open>
  \<^verbatim>\<open>d3.extent(nodes, d => d.degree)\<close>: the least and the greatest value, or a pair of
  \<^verbatim>\<open>undefined\<close> for no values, here \<open>None\<close>.
\<close>

fun extent_step :: "(nat \<times> nat) option \<Rightarrow> nat \<Rightarrow> (nat \<times> nat) option" where
  "extent_step None v = Some (v, v)"
| "extent_step (Some (lo, hi)) v = Some (if lo > v then v else lo, if hi < v then v else hi)"

definition extent :: "nat list \<Rightarrow> (nat \<times> nat) option" where
  "extent vs = foldl extent_step None vs"

text \<open>
  Modelled from the spec: \<^verbatim>\<open>d3.scaleSqrt().domain([lo, hi]).range([r0, r1])\<close> is a function
  of the d3 library, which is not part of the repository. The spec (4.2) gives a square-root
  scale from the degree interval to the radius range which, when the two ends of the domain
  coincide, returns the midpoint of the range instead of dividing by zero. That is what d3
  does from version 6 on (the version whose \<^verbatim>\<open>rollup\<close> and handler signature the script
  uses): the position of \<open>v\<close> in the domain is
  \<^verbatim>\<open>(sqrt v - sqrt lo) / (sqrt hi - sqrt lo)\<close>, or the constant 0.5 when the divisor is 0,
  and the result is \<^verbatim>\<open>r0 * (1 - t) + r1 * t\<close>. A domain of \<^verbatim>\<open>undefined\<close> makes the result
  \<^verbatim>\<open>NaN\<close>, here \<open>None\<close>. Real arithmetic stands for the floating-point one; in the
  degenerate case the two agree exactly.
\<close>

definition scaleSqrt :: "(nat \<times> nat) option \<Rightarrow> real \<times> real \<Rightarrow> nat \<Rightarrow> real option" where
  "scaleSqrt dmn rng v =
     (case dmn of
        None \<Rightarrow> None
      | Some (lo, hi) \<Rightarrow>
          (let b = sqrt (real hi) - sqrt (real lo);
               t = (if b \<noteq> 0 then (sqrt (real v) - sqrt (real lo)) / b else 1 / 2)
           in Some (fst rng * (1 - t) + snd rng * t)))"

text \<open>The scale \<^verbatim>\<open>size\<close> of line 41, applied as \<^verbatim>\<open>size(d.degree)\<close> in line 79.\<close>

definition size_of :: "'id node list \<Rightarrow> nat \<Rightarrow> real option" where
  "size_of ns v = scaleSqrt (extent (map degree ns)) RADIUS_RANGE v"

definition radii :: "'id node list \<Rightarrow> real option list" where
  "radii ns = map (\<lambda>d. size_of ns (degree d)) ns"

subsection \<open>The page the script reads (script.js lines 2--3, 46--48)\<close>

text \<open>
  \<^verbatim>\<open>WIDTH()\<close> and \<^verbatim>\<open>HEIGHT()\<close> read \<^verbatim>\<open>clientWidth\<close> and \<^verbatim>\<open>clientHeight\<close> of the chart
  element, which are non-negative integers; the three sliders hold numbers.
\<close>

record page =
  chart_width :: nat
  chart_height :: nat
  charge :: real
  collide :: real
  linkStrength :: real

definition WIDTH :: "page \<Rightarrow> real" where
  "WIDTH pg = real (chart_width pg)"

definition HEIGHT :: "page \<Rightarrow> real" where
  "HEIGHT pg = real (chart_height pg)"

subsection \<open>Scene (script.js lines 61--80, 206--218)\<close>

text \<open>\<^verbatim>\<open>Math.max(0.5, (d.weight || 1) * 0.6)\<close>: an absent weight and a weight of 0 are falsy.\<close>

definition stroke_width :: "'id link \<Rightarrow> real" where
  "stroke_width l =
     max (1 / 2) ((case weight l of None \<Rightarrow> 1 | Some w \<Rightarrow> if w = 0 then 1 else w) * (6 / 10))"

record scene =
  circles :: "(real option \<times> string) list"
  lines :: "real list"
  legend_items :: "(string \<times> string \<times> nat) list"

text \<open>What the body of the callback draws, given the document its name \<^verbatim>\<open>raw\<close> denotes.\<close>

definition render :: "'id graph_doc \<Rightarrow> scene" where
  "render raw =
     (let ns = derive_nodes raw
      in \<lparr>circles = zip (radii ns) (fill_colors ns),
          lines = map stroke_width (links raw),
          legend_items = legend ns\<rparr>)"

subsection \<open>Loading (script.js lines 10--14, 220)\<close>

text \<open>
  The callback is the arrow function \<^verbatim>\<open>graph => { ... }\<close>: its parameter is \<^verbatim>\<open>graph\<close>, and
  the first statement of its body reads \<^verbatim>\<open>raw.nodes\<close>. The script declares no \<^verbatim>\<open>raw\<close>, so
  the name is looked up in the scope around the callback; a name bound nowhere raises a
  \<^verbatim>\<open>ReferenceError\<close>. The enclosing scope is a parameter: the bindings, if any, that other
  scripts of the page made.
\<close>

datatype js_error = ReferenceError string

type_synonym 'id scope = "string \<rightharpoonup> 'id graph_doc"

definition resolve :: "'id scope \<Rightarrow> string \<Rightarrow> js_error + 'id graph_doc" where
  "resolve sc v = (case sc v of None \<Rightarrow> Inl (ReferenceError v) | Some doc \<Rightarrow> Inr doc)"

definition callback :: "'id scope \<Rightarrow> 'id graph_doc \<Rightarrow> js_error + scene" where
  "callback globals graph =
     (case resolve (globals(''graph'' \<mapsto> graph)) ''raw'' of
        Inl e \<Rightarrow> Inl e
      | Inr raw \<Rightarrow> Inr (render raw))"

text \<open>
  \<^verbatim>\<open>d3.json(url)\<close> returns a promise that is fulfilled with the parsed document or rejected
  (network or parse error). The script chains \<^verbatim>\<open>.then(callback)\<close> and nothing else: there
  is no second argument and no \<^verbatim>\<open>.catch\<close>. A rejection, and an exception thrown by the
  callback, reject the promise that \<^verbatim>\<open>then\<close> returns, which nobody observes. The outcome
  records what the page shows afterwards: the scene, if one was drawn; the message shown to
  the user, which no statement of the script ever writes; and the unobserved rejection.
\<close>

datatype 'a settled = Fulfilled 'a | Rejected string

datatype rejection = LoadFailed string | Thrown js_error

record outcome =
  drawn :: "scene option"
  message :: "string option"
  unhandled :: "rejection option"

definition main :: "'id scope \<Rightarrow> 'id graph_doc settled \<Rightarrow> outcome" where
  "main globals loaded =
     (case loaded of
        Rejected why \<Rightarrow> \<lparr>drawn = None, message = None, unhandled = Some (LoadFailed why)\<rparr>
      | Fulfilled graph \<Rightarrow>
          (case callback globals graph of
             Inl e \<Rightarrow> \<lparr>drawn = None, message = None, unhandled = Some (Thrown e)\<rparr>
           | Inr sc \<Rightarrow> \<lparr>drawn = Some sc, message = None, unhandled = None\<rparr>))"

text \<open>A failure is surfaced when the page shows a message for it.\<close>

definition surfaced :: "outcome \<Rightarrow> bool" where
  "surfaced out = (message out \<noteq> None)"

subsection \<open>Tooltip (script.js lines 83, 102--123)\<close>

text \<open>
  A template literal prints a number that is a non-negative integer as its decimal digits.
\<close>

definition digit_char :: "nat \<Rightarrow> char" where
  "digit_char k = ''0123456789'' ! k"

fun show_nat :: "nat \<Rightarrow> string" where
  "show_nat k = (if k < 10 then [digit_char k] else show_nat (k div 10) @ [digit_char (k mod 10)])"

declare show_nat.simps [simp del]

text \<open>Reading a decimal numeral back, to say what the printed text denotes.\<close>

definition digit_val :: "char \<Rightarrow> nat" where
  "digit_val c = of_char c - 48"

definition read_nat :: "string \<Rightarrow> nat" where
  "read_nat cs = foldl (\<lambda>acc c. 10 * acc + digit_val c) 0 cs"

text \<open>\<^verbatim>\<open>Array.prototype.join(separator)\<close>\<close>

fun join :: "string \<Rightarrow> string list \<Rightarrow> string" where
  "join sep [] = []"
| "join sep [t] = t"
| "join sep (t # u # us) = t @ sep @ join sep (u # us)"

text \<open>
  The array of lines 103--108 before \<^verbatim>\<open>.filter(Boolean)\<close>. \<^verbatim>\<open>d.name ?? d.id\<close> falls back
  to the id only for an absent name; \<^verbatim>\<open>show_id\<close> is how the template literal prints an id.
\<close>

definition tooltip_lines :: "('id \<Rightarrow> string) \<Rightarrow> 'id node \<Rightarrow> string list" where
  "tooltip_lines show_id d =
     [''<strong>'' @ (case n_name d of None \<Rightarrow> show_id (n_id d) | Some s \<Rightarrow> s) @ ''</strong>'',
      (case n_affiliation d of None \<Rightarrow> [] | Some s \<Rightarrow> if s = [] then [] else s),
      (case n_country d of None \<Rightarrow> [] | Some c \<Rightarrow> if c = [] then [] else ''Country: '' @ c),
      ''Degree: '' @ show_nat (degree d)]"

definition tooltip_html :: "('id \<Rightarrow> string) \<Rightarrow> 'id node \<Rightarrow> string" where
  "tooltip_html show_id d = join ''<br/>'' (filter (\<lambda>t. t \<noteq> []) (tooltip_lines show_id d))"

text \<open>
  The elements a click can pass through, and a click event. \<^verbatim>\<open>composedPath()\<close> returns the
  event's path while the event is being dispatched and the empty array once its dispatch is
  over (DOM standard).
\<close>

datatype element = TooltipEl | CircleEl nat | ChartEl | BodyEl | OtherEl string

record click_event =
  path :: "element list"
  offsetX :: real
  offsetY :: real
  dispatching :: bool

definition composedPath :: "click_event \<Rightarrow> element list" where
  "composedPath ev = (if dispatching ev then path ev else [])"

text \<open>
  The tooltip element, and the one listener slot \<^verbatim>\<open>click.tooltip\<close> of the body (d3 replaces
  a listener registered under the same name). The listener is a closure; what it captures of
  its surroundings is the \<^verbatim>\<open>event\<close> of the node click that installed it.
\<close>

record ui =
  tip_html :: string
  tip_left :: real
  tip_top :: real
  tip_hidden :: bool
  listener :: "click_event option"

text \<open>
  The listener of lines 117--121. Its own parameter is \<^verbatim>\<open>e\<close>, but the test reads
  \<^verbatim>\<open>event.composedPath()\<close>, the captured event of the node click.
\<close>

definition body_listener :: "click_event \<Rightarrow> click_event \<Rightarrow> ui \<Rightarrow> ui" where
  "body_listener event e u =
     (if TooltipEl \<notin> set (composedPath event)
      then u\<lparr>tip_hidden := True, listener := None\<rparr>
      else u)"

text \<open>The click handler of a node, lines 102--123.\<close>

definition node_click :: "('id \<Rightarrow> string) \<Rightarrow> click_event \<Rightarrow> 'id node \<Rightarrow> ui \<Rightarrow> ui" where
  "node_click show_id event d u =
     u\<lparr>tip_html := tooltip_html show_id d,
       tip_left := offsetX event + 12,
       tip_top := offsetY event + 12,
       tip_hidden := False,
       listener := Some event\<rparr>"

text \<open>
  One click \<^verbatim>\<open>e\<close> in the document. The body's listener was registered with
  \<^verbatim>\<open>{ capture: true, once: true }\<close>: it runs first, for a click on anything inside the body,
  and the browser removes it after that one call whatever it did. By then the dispatch of the
  node click it captured is over. If the click is on a circle, the circle's handler runs next
  with that circle's node.
\<close>

definition dispatch_click :: "('id \<Rightarrow> string) \<Rightarrow> 'id node list \<Rightarrow> click_event \<Rightarrow> ui \<Rightarrow> ui" where
  "dispatch_click show_id ns e u =
     (let u1 = (case listener u of
                  None \<Rightarrow> u
                | Some event \<Rightarrow>
                    if BodyEl \<in> set (path e)
                    then (body_listener (event\<lparr>dispatching := False\<rparr>) e u)\<lparr>listener := None\<rparr>
                    else u)
      in case path e of
           CircleEl i # rest \<Rightarrow> if i < length ns then node_click show_id e (ns ! i) u1 else u1
         | _ \<Rightarrow> u1)"

subsection \<open>Simulation, tick, drag and resize (script.js lines 127--176, 200--204)\<close>

text \<open>
  The positional fields that d3-force keeps on each node object: the position, and the pinned
  position \<^verbatim>\<open>fx\<close>, \<^verbatim>\<open>fy\<close>, which is \<^verbatim>\<open>null\<close> (here \<open>None\<close>) for a free node.
\<close>

record body =
  pos_x :: real
  pos_y :: real
  fx :: "real option"
  fy :: "real option"

text \<open>
  The simulation object as far as the script sets it: the energy \<^verbatim>\<open>alpha\<close>, its target,
  whether the timer runs, the centre of the centering force, and the three strengths read
  from the sliders. d3 creates a simulation running, with \<^verbatim>\<open>alpha\<close> 1 and target 0.
\<close>

record simulation =
  alpha :: real
  alphaTarget :: real
  running :: bool
  center :: "real \<times> real"
  charge_strength :: real
  link_strength :: real
  collide_factor :: real

definition createSimulation :: "page \<Rightarrow> simulation" where
  "createSimulation pg =
     \<lparr>alpha = 1, alphaTarget = 0, running = True,
      center = (WIDTH pg / 2, HEIGHT pg / 2),
      charge_strength = charge pg,
      link_strength = linkStrength pg,
      collide_factor = collide pg\<rparr>"

text \<open>
  Modelled from the spec: the integration step of \<^verbatim>\<open>d3.forceSimulation\<close> is library code,
  which is not part of the repository. The spec treats the physics as opaque and says that a
  pinned position overrides the free movement. The free movement is the parameter \<open>free\<close>;
  a node with a pinned coordinate is put there.
\<close>

definition sim_step :: "(body \<Rightarrow> real \<times> real) \<Rightarrow> body \<Rightarrow> body" where
  "sim_step free b =
     b\<lparr>pos_x := (case fx b of None \<Rightarrow> fst (free b) | Some v \<Rightarrow> v),
       pos_y := (case fy b of None \<Rightarrow> snd (free b) | Some v \<Rightarrow> v)\<rparr>"

text \<open>
  The tick handler, lines 137--147. The lines are drawn first, from the positions the step
  left; then each node's position is overwritten with the clamped one, which is also the
  circle's \<^verbatim>\<open>cx\<close>, \<^verbatim>\<open>cy\<close>. After \<^verbatim>\<open>d3.forceLink\<close> a link's ends are nodes of the simulation,
  here their indices, which are below the number of nodes.
\<close>

record frame =
  line_ends :: "(real \<times> real \<times> real \<times> real) list"
  circle_pos :: "(real \<times> real) list"
  bodies_after :: "body list"

definition clamp_body :: "page \<Rightarrow> body \<Rightarrow> body" where
  "clamp_body pg b =
     b\<lparr>pos_x := max 6 (min (WIDTH pg - 6) (pos_x b)),
       pos_y := max 6 (min (HEIGHT pg - 6) (pos_y b))\<rparr>"

definition tick :: "page \<Rightarrow> (nat \<times> nat) list \<Rightarrow> body list \<Rightarrow> frame" where
  "tick pg ends bs =
     (let bs' = map (clamp_body pg) bs
      in \<lparr>line_ends = map (\<lambda>(s, t). (pos_x (bs ! s), pos_y (bs ! s), pos_x (bs ! t), pos_y (bs ! t))) ends,
          circle_pos = map (\<lambda>b. (pos_x b, pos_y b)) bs',
          bodies_after = bs'\<rparr>)"

text \<open>The three drag handlers, lines 156--169. \<^verbatim>\<open>!event.active\<close> holds when the count is 0.\<close>

record drag_event =
  ev_active :: nat
  ev_x :: real
  ev_y :: real

definition dragstarted :: "drag_event \<Rightarrow> simulation \<times> body \<Rightarrow> simulation \<times> body" where
  "dragstarted event sd =
     (case sd of (sim, d) \<Rightarrow>
        ((if ev_active event = 0 then sim\<lparr>alphaTarget := 3 / 10, running := True\<rparr> else sim),
         d\<lparr>fx := Some (pos_x d), fy := Some (pos_y d)\<rparr>))"

definition dragged :: "drag_event \<Rightarrow> simulation \<times> body \<Rightarrow> simulation \<times> body" where
  "dragged event sd =
     (case sd of (sim, d) \<Rightarrow> (sim, d\<lparr>fx := Some (ev_x event), fy := Some (ev_y event)\<rparr>))"

definition dragended :: "drag_event \<Rightarrow> simulation \<times> body \<Rightarrow> simulation \<times> body" where
  "dragended event sd =
     (case sd of (sim, d) \<Rightarrow>
        ((if ev_active event = 0 then sim\<lparr>alphaTarget := 0\<rparr> else sim),
         d\<lparr>fx := None, fy := None\<rparr>))"

text \<open>
  Modelled from the spec: \<^verbatim>\<open>d3.drag()\<close> is library code, which is not part of the
  repository. The spec speaks of pointer-down, movement and pointer-up on a node, possibly
  for several nodes at once. d3 counts the gestures in progress and passes the count as
  \<^verbatim>\<open>event.active\<close>: at a start the count before this gesture is added, at an end the count
  after it is removed. A gesture ends only after it started, and its subject is a node of
  the simulation.
\<close>

datatype gesture = PointerDown nat | PointerMove nat real real | PointerUp nat

record world =
  sim :: simulation
  bodies :: "body list"
  active :: nat
  viewBox :: "real \<times> real \<times> real \<times> real"

definition handle :: "(drag_event \<Rightarrow> simulation \<times> body \<Rightarrow> simulation \<times> body) \<Rightarrow>
    drag_event \<Rightarrow> nat \<Rightarrow> world \<Rightarrow> world" where
  "handle h event i w =
     (case h event (sim w, bodies w ! i) of (s, d) \<Rightarrow> w\<lparr>sim := s, bodies := (bodies w)[i := d]\<rparr>)"

fun drag_step :: "world \<Rightarrow> gesture \<Rightarrow> world" where
  "drag_step w (PointerDown i) =
     (if i < length (bodies w)
      then handle dragstarted \<lparr>ev_active = active w, ev_x = pos_x (bodies w ! i), ev_y = pos_y (bodies w ! i)\<rparr> i
             (w\<lparr>active := active w + 1\<rparr>)
      else w)"
| "drag_step w (PointerMove i px py) =
     (if i < length (bodies w) \<and> 0 < active w
      then handle dragged \<lparr>ev_active = active w, ev_x = px, ev_y = py\<rparr> i w
      else w)"
| "drag_step w (PointerUp i) =
     (if i < length (bodies w) \<and> 0 < active w
      then handle dragended \<lparr>ev_active = active w - 1, ev_x = pos_x (bodies w ! i), ev_y = pos_y (bodies w ! i)\<rparr> i
             (w\<lparr>active := active w - 1\<rparr>)
      else w)"

definition drag_run :: "world \<Rightarrow> gesture list \<Rightarrow> world" where
  "drag_run w gs = foldl drag_step w gs"

text \<open>The state the callback leaves when it returns: no gesture in progress.\<close>

definition initial_world :: "page \<Rightarrow> body list \<Rightarrow> world" where
  "initial_world pg bs =
     \<lparr>sim = createSimulation pg, bodies = bs, active = 0, viewBox = (0, 0, WIDTH pg, HEIGHT pg)\<rparr>"

text \<open>The resize listener, lines 200--204, run with the page as it is after the resize.\<close>

definition on_resize :: "page \<Rightarrow> world \<Rightarrow> world" where
  "on_resize pg w =
     w\<lparr>viewBox := (0, 0, WIDTH pg, HEIGHT pg),
       sim := (sim w)\<lparr>center := (WIDTH pg / 2, HEIGHT pg / 2), alpha := 3 / 10, running := True\<rparr>\<rparr>"

subsection \<open>Small inputs\<close>

definition author_in :: "string \<Rightarrow> string option \<Rightarrow> string author" where
  "author_in i c = \<lparr>node_id = i, node_name = None, affiliation = None, country = c\<rparr>"

text \<open>One author without a country, no links.\<close>

definition lone_author :: "string graph_doc" where
  "lone_author = \<lparr>nodes = [author_in ''a'' None], links = []\<rparr>"

text \<open>Two authors joined by one link.\<close>

definition two_authors :: "string graph_doc" where
  "two_authors =
     \<lparr>nodes = [author_in ''a'' None, author_in ''b'' (Some ''NG'')],
      links = [\<lparr>source = ''a'', target = ''b'', weight = None\<rparr>]\<rparr>"

text \<open>Twelve authors from eleven countries; only the second country occurs twice.\<close>

definition twelve_authors :: "string graph_doc" where
  "twelve_authors =
     \<lparr>nodes =
        [author_in ''a0'' (Some ''GH''), author_in ''a1'' (Some ''NG''), author_in ''a2'' (Some ''NG''),
         author_in ''a3'' (Some ''KE''), author_in ''a4'' (Some ''ZA''), author_in ''a5'' (Some ''EG''),
         author_in ''a6'' (Some ''US''), author_in ''a7'' (Some ''GB''), author_in ''a8'' (Some ''FR''),
         author_in ''a9'' (Some ''DE''), author_in ''a10'' (Some ''CN''), author_in ''a11'' (Some ''IN'')],
      links = []\<rparr>"

definition wide_page :: page where
  "wide_page = \<lparr>chart_width = 800, chart_height = 600, charge = - 30, collide = 1, linkStrength = 1 / 2\<rparr>"

definition narrow_page :: page where
  "narrow_page = \<lparr>chart_width = 10, chart_height = 600, charge = - 30, collide = 1, linkStrength = 1 / 2\<rparr>"

definition body_at :: "real \<Rightarrow> real \<Rightarrow> body" where
  "body_at px py = \<lparr>pos_x = px, pos_y = py, fx = None, fy = None\<rparr>"

definition closed_ui :: ui where
  "closed_ui = \<lparr>tip_html = [], tip_left = 0, tip_top = 0, tip_hidden = True, listener = None\<rparr>"

definition click_on :: "element list \<Rightarrow> click_event" where
  "click_on els = \<lparr>path = els, offsetX = 40, offsetY = 50, dispatching = True\<rparr>"

section \<open>Properties\<close>

subsection \<open>Grouping\<close>

lemma map_of_group_add:
  "map_of (group_add k v m) k' =
     (if k' = k then Some ((case map_of m k of None \<Rightarrow> [] | Some g \<Rightarrow> g) @ [v]) else map_of m k')"
  by (induction m) auto

lemma map_of_groups_from:
  "map_of (groups_from key m vs) k =
     (case map_of m k of
        None \<Rightarrow> (if filter (\<lambda>v. key v = k) vs = [] then None else Some (filter (\<lambda>v. key v = k) vs))
      | Some g \<Rightarrow> Some (g @ filter (\<lambda>v. key v = k) vs))"
proof (induction vs arbitrary: m)
  case Nil
  then show ?case by (simp split: option.splits)
next
  case (Cons v vs)
  show ?case
    by (simp add: Cons.IH map_of_group_add split: option.splits)
qed

lemma map_of_reduce:
  "map_of (map (\<lambda>(k, g). (k, reduce g)) m) k = map_option reduce (map_of m k)"
  by (induction m) auto

lemma map_get_rollup:
  "map_get (rollup vals reduce key) k =
     (if filter (\<lambda>v. key v = k) vals = [] then None
      else Some (reduce (filter (\<lambda>v. key v = k) vals)))"
  by (simp add: map_get_def rollup_def map_of_reduce map_of_groups_from)

lemma degree_of_count: "degree_of ls i = length (filter (\<lambda>e. e = i) (endpoints ls))"
  by (simp add: degree_of_def degree_map_def map_get_rollup)

lemma endpoints_count:
  "length (filter (\<lambda>e. e = i) (endpoints ls)) =
     length (filter (\<lambda>l. source l = i) ls) + length (filter (\<lambda>l. target l = i) ls)"
  by (induction ls) (auto simp: endpoints_def)

subsection \<open>Degree\<close>

text \<open>
  Claim C3. The degree derived for a node is the number of link endpoints that carry the
  node's id: the links whose source is the id plus the links whose target is the id, so a
  link from a node to itself adds two. Every node of the input gets exactly this number,
  which is 0 when no link mentions the id, and in particular when there are no links.
\<close>

theorem degree_counts_endpoints:
  "degree_of ls i = length (filter (\<lambda>l. source l = i) ls) + length (filter (\<lambda>l. target l = i) ls)
   \<and> map degree (derive_nodes raw) =
       map (\<lambda>a. length (filter (\<lambda>l. source l = node_id a) (links raw))
               + length (filter (\<lambda>l. target l = node_id a) (links raw))) (nodes raw)
   \<and> map n_id (derive_nodes raw) = map node_id (nodes raw)
   \<and> degree_of (\<lparr>source = i, target = i, weight = w\<rparr> # ls) i = 2 + degree_of ls i
   \<and> degree_of [] i = 0"
  by (simp add: degree_of_count endpoints_count derive_nodes_def with_degree_def)

subsection \<open>Radius\<close>

lemma extent_step_const: "\<forall>v\<in>set vs. v = k \<Longrightarrow> foldl extent_step (Some (k, k)) vs = Some (k, k)"
  by (induction vs) auto

lemma extent_const: "vs \<noteq> [] \<Longrightarrow> \<forall>v\<in>set vs. v = k \<Longrightarrow> extent vs = Some (k, k)"
  by (cases vs) (auto simp: extent_def extent_step_const)

lemma scaleSqrt_degenerate: "scaleSqrt (Some (k, k)) RADIUS_RANGE v = Some (15 / 2)"
  by (simp add: scaleSqrt_def RADIUS_RANGE_def)

lemma radii_const:
  assumes "\<forall>d\<in>set ns. degree d = k"
  shows "radii ns = replicate (length ns) (Some (15 / 2))"
proof (cases "ns = []")
  case True
  then show ?thesis by (simp add: radii_def)
next
  case False
  with assms have "extent (map degree ns) = Some (k, k)"
    by (intro extent_const) auto
  then show ?thesis
    by (simp add: radii_def size_of_def scaleSqrt_degenerate map_replicate_const)
qed

lemma degree_no_links: "links raw = [] \<Longrightarrow> \<forall>d\<in>set (derive_nodes raw). degree d = 0"
  by (auto simp: derive_nodes_def with_degree_def degree_of_count endpoints_def)

lemma length_derive_nodes: "length (derive_nodes raw) = length (nodes raw)"
  by (simp add: derive_nodes_def)

text \<open>
  Claim C4. When every node has the same degree, the domain of the radius scale is a single
  point; the scale then makes no division and gives every node the radius 7.5, the midpoint
  of the range from 3 to 12. A document without links is such a case: all degrees are 0.
\<close>

theorem radius_midpoint_when_degrees_equal:
  "((\<forall>d\<in>set ns. degree d = k) \<longrightarrow> radii ns = replicate (length ns) (Some (15 / 2)))
   \<and> (links raw = [] \<longrightarrow>
        map degree (derive_nodes raw) = replicate (length (nodes raw)) 0
        \<and> radii (derive_nodes raw) = replicate (length (nodes raw)) (Some (15 / 2)))
   \<and> (fst RADIUS_RANGE + snd RADIUS_RANGE) / 2 = 15 / 2"
proof -
  have a: "(\<forall>d\<in>set ns. degree d = k) \<longrightarrow> radii ns = replicate (length ns) (Some (15 / 2))"
    using radii_const by blast
  have b: "links raw = [] \<longrightarrow>
        map degree (derive_nodes raw) = replicate (length (nodes raw)) 0
        \<and> radii (derive_nodes raw) = replicate (length (nodes raw)) (Some (15 / 2))"
  proof
    assume e: "links raw = []"
    from degree_no_links[OF e] have "map degree (derive_nodes raw) = replicate (length (derive_nodes raw)) 0"
      by (simp add: map_replicate_const[symmetric])
    moreover from degree_no_links[OF e] have "radii (derive_nodes raw) = replicate (length (derive_nodes raw)) (Some (15 / 2))"
      by (rule radii_const)
    ultimately show "map degree (derive_nodes raw) = replicate (length (nodes raw)) 0
        \<and> radii (derive_nodes raw) = replicate (length (nodes raw)) (Some (15 / 2))"
      by (simp add: length_derive_nodes)
  qed
  have c: "(fst RADIUS_RANGE + snd RADIUS_RANGE) / 2 = 15 / 2"
    by (simp add: RADIUS_RANGE_def)
  from a b c show ?thesis by (intro conjI)
qed

theorem radius_midpoint_witness:
  "map degree (derive_nodes two_authors) = [1, 1]
   \<and> radii (derive_nodes two_authors) = [Some (15 / 2), Some (15 / 2)]
   \<and> links lone_author = []
   \<and> radii (derive_nodes lone_author) = [Some (15 / 2)]"
proof -
  have h0: "map degree (derive_nodes two_authors) = [1, 1]"
    by code_simp
  have "set (map degree (derive_nodes two_authors)) = {1}"
    unfolding h0 by simp
  then have h1: "\<forall>d\<in>set (derive_nodes two_authors). degree d = 1"
    by auto
  have h2: "links lone_author = []"
    by (simp add: lone_author_def)
  have l1: "length (derive_nodes two_authors) = 2"
    by (simp add: length_derive_nodes two_authors_def)
  have l2: "length (nodes lone_author) = 1"
    by (simp add: lone_author_def)
  note t = radius_midpoint_when_degrees_equal[of "derive_nodes two_authors" 1 lone_author]
  from t h1 have "radii (derive_nodes two_authors) = replicate (length (derive_nodes two_authors)) (Some (15 / 2))"
    by blast
  with l1 have r1: "radii (derive_nodes two_authors) = [Some (15 / 2), Some (15 / 2)]"
    by (simp add: numeral_2_eq_2)
  from t h2 have "radii (derive_nodes lone_author) = replicate (length (nodes lone_author)) (Some (15 / 2))"
    by blast
  with l2 have r2: "radii (derive_nodes lone_author) = [Some (15 / 2)]"
    by simp
  from h0 r1 h2 r2 show ?thesis by (intro conjI)
qed

subsection \<open>Sorting\<close>

lemma mset_insert_by: "mset (insert_by cmp v ys) = add_mset v (mset ys)"
  by (induction ys) auto

lemma mset_array_sort: "mset (array_sort cmp vs) = mset vs"
  by (induction vs) (auto simp: array_sort_def mset_insert_by)

lemma set_insert_by: "set (insert_by cmp v ys) = insert v (set ys)"
  by (induction ys) auto

lemma descending_le: "descending a b \<le> 0 \<longleftrightarrow> b \<le> a"
  by (simp add: descending_def)

lemma sorted_insert_by:
  "sorted_wrt (\<lambda>a b. f b \<le> f a) ys \<Longrightarrow>
   sorted_wrt (\<lambda>a b. f b \<le> (f a :: nat)) (insert_by (\<lambda>a b. descending (f a) (f b)) v ys)"
  by (induction ys) (auto simp: descending_le set_insert_by)

lemma sorted_array_sort:
  "sorted_wrt (\<lambda>a b. f b \<le> (f a :: nat)) (array_sort (\<lambda>a b. descending (f a) (f b)) vs)"
  by (induction vs) (auto simp: array_sort_def sorted_insert_by)

lemma filter_insert_by:
  "filter (\<lambda>r. f r = k) (insert_by (\<lambda>a b. descending (f a) (f b)) v ys) =
     (if f v = k then v # filter (\<lambda>r. f r = k) ys else filter (\<lambda>r. f r = k) ys)"
  by (induction ys) (auto simp: descending_le)

lemma stable_array_sort:
  "filter (\<lambda>r. f r = k) (array_sort (\<lambda>a b. descending (f a) (f b)) vs) = filter (\<lambda>r. f r = k) vs"
  by (induction vs) (auto simp: array_sort_def filter_insert_by)

subsection \<open>Order of the groups\<close>

lemma keys_group_add:
  "map fst (group_add k v m) = (if k \<in> set (map fst m) then map fst m else map fst m @ [k])"
  by (induction m) force+

lemma keys_groups_from:
  "map fst (groups_from key m vs) =
     foldl (\<lambda>acc k. if k \<in> set acc then acc else acc @ [k]) (map fst m) (map key vs)"
  by (induction vs arbitrary: m) (simp_all add: keys_group_add)

lemma first_seen_foldl:
  "distinct acc \<Longrightarrow>
   foldl (\<lambda>acc k. if k \<in> set acc then acc else acc @ [k]) acc ks = rev (remdups (rev (acc @ ks)))"
proof (induction ks arbitrary: acc)
  case Nil
  then show ?case by (simp add: distinct_remdups_id)
next
  case (Cons k ks)
  show ?case
  proof (cases "k \<in> set acc")
    case True
    then have "remdups (k # rev acc) = remdups (rev acc)"
      by simp
    then have "remdups (rev ks @ remdups (k # rev acc)) = remdups (rev ks @ remdups (rev acc))"
      by (rule arg_cong)
    then have "remdups (rev ks @ k # rev acc) = remdups (rev ks @ rev acc)"
      by (simp only: remdups_append2)
    with True Cons show ?thesis by simp
  next
    case False
    with Cons.prems have "distinct (acc @ [k])" by simp
    from Cons.IH[OF this] False show ?thesis by simp
  qed
qed

lemma keys_reduce: "map (fst \<circ> (\<lambda>(k, g). (k, reduce g))) m = map fst m"
  by (induction m) auto

lemma keys_rollup: "map fst (rollup vals reduce key) = rev (remdups (rev (map key vals)))"
  using first_seen_foldl[of "[]" "map key vals"]
  by (simp add: rollup_def keys_groups_from keys_reduce)

lemma ordinal_domain_distinct: "distinct ks \<Longrightarrow> ordinal_domain ks = ks"
  using first_seen_foldl[of "[]" ks]
  by (simp add: ordinal_domain_def distinct_remdups_id)

lemma index_of_nth: "distinct ks \<Longrightarrow> i < length ks \<Longrightarrow> index_of ks (ks ! i) = Some i"
proof (induction ks arbitrary: i)
  case Nil
  then show ?case by simp
next
  case (Cons k ks)
  then show ?case by (cases i) auto
qed

subsection \<open>Countries and colours\<close>

lemma rows_keys: "map row_country (country_rows ns) = map fst (byCountry ns)"
  by (simp add: country_rows_def split_def)

lemma rows_first_seen: "map row_country (country_rows ns) = rev (remdups (rev (map country_key ns)))"
  by (simp only: rows_keys byCountry_def keys_rollup)

lemma distinct_rows: "distinct (map row_country (country_rows ns))"
  by (simp only: rows_first_seen distinct_rev distinct_remdups)

lemma row_count:
  assumes "r \<in> set (country_rows ns)"
  shows "row_n r = length (filter (\<lambda>d. country_key d = row_country r) ns)"
proof -
  from assms obtain k v where kv: "(k, v) \<in> set (byCountry ns)" and r: "r = \<lparr>row_country = k, row_n = v\<rparr>"
    by (auto simp: country_rows_def)
  have "distinct (map fst (byCountry ns))"
    using distinct_rows[of ns] by (simp only: rows_keys)
  with kv have "map_get (byCountry ns) k = Some v"
    by (simp add: map_get_def)
  then show ?thesis
    using r by (simp add: byCountry_def map_get_rollup split: if_splits)
qed

lemma set_sorted_rows: "set (sortedCountries ns) = set (country_rows ns)"
  using mset_array_sort[of _ "country_rows ns"]
  by (metis sortedCountries_def set_mset_mset)

lemma distinct_sorted_rows: "distinct (map row_country (sortedCountries ns))"
proof -
  have "mset (map row_country (sortedCountries ns)) = mset (map row_country (country_rows ns))"
    by (simp add: sortedCountries_def mset_array_sort)
  then show ?thesis
    using distinct_rows[of ns] mset_eq_imp_distinct_iff by blast
qed

lemma top10_take: "top10 ns = take 10 (map row_country (sortedCountries ns))"
  by (simp add: top10_def take_map)

lemma distinct_top10: "distinct (top10 ns)"
  by (simp only: top10_take distinct_take distinct_sorted_rows)

lemma length_top10: "length (top10 ns) \<le> 10"
  by (simp add: top10_def)

lemma color_domain_top10: "color_domain ns = top10 ns"
  using distinct_top10[of ns] by (simp add: color_domain_def top10_def ordinal_domain_distinct)

lemma country_key_nonempty: "country_key d \<noteq> []"
  by (simp add: country_key_def split: option.splits)

lemma set_top10: "set (top10 ns) \<subseteq> country_key ` set ns"
proof -
  have "set (top10 ns) \<subseteq> set (map row_country (sortedCountries ns))"
    by (simp only: top10_take set_take_subset)
  also have "\<dots> = set (map row_country (country_rows ns))"
    by (simp add: set_sorted_rows)
  also have "\<dots> = country_key ` set ns"
    by (simp only: rows_first_seen set_rev set_remdups set_map)
  finally show ?thesis .
qed

lemma color_member: "c \<in> set dmn \<Longrightarrow> snd (color dmn c) = dmn"
  by (induction dmn) (auto simp: color_def scaleOrdinal_def split: option.splits)

lemma color_nth:
  "distinct dmn \<Longrightarrow> j < length dmn \<Longrightarrow> length dmn \<le> 10 \<Longrightarrow>
   color dmn (dmn ! j) = (schemeTableau10 ! j, dmn)"
  by (simp add: color_def scaleOrdinal_def index_of_nth schemeTableau10_def)

lemma node_fill_snd: "set t \<subseteq> set dmn \<Longrightarrow> snd (node_fill t dmn d) = dmn"
  by (auto simp: node_fill_def set_has_def color_member split: option.splits)

lemma fills_from_map:
  "set t \<subseteq> set dmn \<Longrightarrow> fills_from t dmn ns = (map (\<lambda>d. fst (node_fill t dmn d)) ns, dmn)"
proof (induction ns)
  case Nil
  then show ?case by simp
next
  case (Cons d ds)
  from Cons.prems have "snd (node_fill t dmn d) = dmn" by (rule node_fill_snd)
  with Cons show ?case by (simp add: split_def)
qed

lemma fill_colors_map:
  "fill_colors ns = map (\<lambda>d. fst (node_fill (top10 ns) (top10 ns) d)) ns"
  by (simp add: fill_colors_def color_domain_top10 fills_from_map)

lemma fill_outside:
  assumes "country_key d \<notin> set (top10 ns)"
  shows "fst (node_fill (top10 ns) dmn d) = FALLBACK_GRAY"
proof (cases "n_country d")
  case None
  then show ?thesis by (simp add: node_fill_def set_has_def)
next
  case (Some c)
  have "[] \<notin> set (top10 ns)"
    using set_top10[of ns] country_key_nonempty by (metis imageE subsetD)
  with assms Some show ?thesis
    by (auto simp: node_fill_def set_has_def country_key_def split: if_splits)
qed

lemma fill_inside:
  assumes "j < length (top10 ns)" "n_country d = Some (top10 ns ! j)"
  shows "fst (node_fill (top10 ns) (top10 ns) d) = schemeTableau10 ! j"
  using assms color_nth[OF distinct_top10 assms(1) length_top10]
  by (simp add: node_fill_def set_has_def)

lemma legend_from_zip:
  "dmn = map row_country (pre @ rs) \<Longrightarrow> distinct dmn \<Longrightarrow> length dmn \<le> 10 \<Longrightarrow>
   legend_from dmn rs =
     map (\<lambda>(c, r). (c, row_country r, row_n r))
       (zip (drop (length pre) (take (length dmn) schemeTableau10)) rs)"
proof (induction rs arbitrary: pre)
  case Nil
  then show ?case by simp
next
  case (Cons r rs)
  have j: "length pre < length dmn" using Cons.prems by simp
  have nth: "dmn ! length pre = row_country r" using Cons.prems by (simp add: nth_append)
  have c: "color dmn (row_country r) = (schemeTableau10 ! length pre, dmn)"
    using color_nth[OF Cons.prems(2) j Cons.prems(3)] nth by simp
  have ih: "legend_from dmn rs =
      map (\<lambda>(c, r). (c, row_country r, row_n r))
        (zip (drop (length (pre @ [r])) (take (length dmn) schemeTableau10)) rs)"
    using Cons.prems by (intro Cons.IH) auto
  have len: "length pre < length (take (length dmn) schemeTableau10)"
    using j Cons.prems(3) by (simp add: schemeTableau10_def)
  have "drop (length pre) (take (length dmn) schemeTableau10) =
        schemeTableau10 ! length pre # drop (Suc (length pre)) (take (length dmn) schemeTableau10)"
    using len by (metis Cons_nth_drop_Suc nth_take j)
  with c ih show ?case by simp
qed

lemma legend_zip:
  "legend ns =
     map (\<lambda>(c, r). (c, row_country r, row_n r))
       (zip (take (length (top10 ns)) schemeTableau10) (take 10 (sortedCountries ns)))"
proof -
  let ?rs = "take 10 (sortedCountries ns)"
  have "snd (fills_from (top10 ns) (color_domain ns) ns) = top10 ns"
    by (simp add: color_domain_top10 fills_from_map)
  then have l: "legend ns = legend_from (top10 ns) ?rs"
    by (simp add: legend_def)
  have "legend_from (top10 ns) ?rs =
      map (\<lambda>(c, r). (c, row_country r, row_n r))
        (zip (drop (length ([]::row list)) (take (length (top10 ns)) schemeTableau10)) ?rs)"
    using distinct_top10[of ns] length_top10[of ns]
    by (intro legend_from_zip) (auto simp: top10_def)
  with l show ?thesis by simp
qed

lemma legend_swatches: "map fst (legend ns) = take (length (top10 ns)) schemeTableau10"
proof -
  have len: "length (take (length (top10 ns)) schemeTableau10) = length (take 10 (sortedCountries ns))"
    by (simp add: top10_def schemeTableau10_def)
  have "map fst (legend ns) =
      map fst (zip (take (length (top10 ns)) schemeTableau10) (take 10 (sortedCountries ns)))"
    unfolding legend_zip by (simp add: split_def comp_def)
  with len show ?thesis by simp
qed

lemma palette_facts:
  "length schemeTableau10 = 10 \<and> distinct schemeTableau10 \<and> FALLBACK_GRAY \<notin> set schemeTableau10"
  by (simp add: schemeTableau10_def FALLBACK_GRAY_def)

lemma top10_colors_distinct: "distinct (map (\<lambda>c. fst (color (color_domain ns) c)) (top10 ns))"
proof -
  have "map (\<lambda>c. fst (color (top10 ns) c)) (top10 ns) = take (length (top10 ns)) schemeTableau10"
  proof (rule nth_equalityI)
    show "length (map (\<lambda>c. fst (color (top10 ns) c)) (top10 ns)) = length (take (length (top10 ns)) schemeTableau10)"
      using length_top10[of ns] by (simp add: schemeTableau10_def)
  next
    fix j assume "j < length (map (\<lambda>c. fst (color (top10 ns) c)) (top10 ns))"
    then have j: "j < length (top10 ns)" by simp
    from color_nth[OF distinct_top10 j length_top10] j
    show "map (\<lambda>c. fst (color (top10 ns) c)) (top10 ns) ! j = take (length (top10 ns)) schemeTableau10 ! j"
      by simp
  qed
  moreover have "distinct (take (length (top10 ns)) schemeTableau10)"
    using palette_facts by (simp only: distinct_take)
  ultimately show ?thesis by (simp add: color_domain_top10)
qed

text \<open>
  Claim C6. The country rows are sorted by descending node count: the sorted list has the
  same rows as the grouping, counts never increase along it, and rows with equal counts keep
  the order in which the grouping lists them, which is the order of each country's first
  node in the input. Each row's count is the number of nodes of that country. The palette has
  ten distinct colours, none of them the fallback gray; the j-th country of the top ten gets
  the j-th colour of the palette, in the scale and in the legend, so the top ten get distinct
  colours; a node whose country is the j-th of the top ten is filled with the j-th colour,
  and a node whose country is outside the top ten is filled with the fallback gray.
\<close>

theorem top10_sorted_and_colored:
  "sorted_wrt (\<lambda>a b. row_n b \<le> row_n a) (sortedCountries ns)
   \<and> mset (sortedCountries ns) = mset (country_rows ns)
   \<and> filter (\<lambda>r. row_n r = k) (sortedCountries ns) = filter (\<lambda>r. row_n r = k) (country_rows ns)
   \<and> map row_country (country_rows ns) = rev (remdups (rev (map country_key ns)))
   \<and> (\<forall>r\<in>set (country_rows ns). row_n r = length (filter (\<lambda>d. country_key d = row_country r) ns))
   \<and> (length schemeTableau10 = 10 \<and> distinct schemeTableau10 \<and> FALLBACK_GRAY \<notin> set schemeTableau10)
   \<and> (\<forall>j<length (top10 ns). color (color_domain ns) (top10 ns ! j) = (schemeTableau10 ! j, color_domain ns))
   \<and> distinct (map (\<lambda>c. fst (color (color_domain ns) c)) (top10 ns))
   \<and> map fst (legend ns) = take (length (top10 ns)) schemeTableau10
   \<and> (\<forall>i<length ns. country_key (ns ! i) \<notin> set (top10 ns) \<longrightarrow> fill_colors ns ! i = FALLBACK_GRAY)
   \<and> (\<forall>i<length ns. \<forall>j<length (top10 ns).
         n_country (ns ! i) = Some (top10 ns ! j) \<longrightarrow> fill_colors ns ! i = schemeTableau10 ! j)"
proof -
  have c1: "sorted_wrt (\<lambda>a b. row_n b \<le> row_n a) (sortedCountries ns)"
    unfolding sortedCountries_def by (rule sorted_array_sort)
  have c2: "mset (sortedCountries ns) = mset (country_rows ns)"
    unfolding sortedCountries_def by (rule mset_array_sort)
  have c3: "filter (\<lambda>r. row_n r = k) (sortedCountries ns) = filter (\<lambda>r. row_n r = k) (country_rows ns)"
    unfolding sortedCountries_def by (rule stable_array_sort)
  have c4: "map row_country (country_rows ns) = rev (remdups (rev (map country_key ns)))"
    by (rule rows_first_seen)
  have c5: "\<forall>r\<in>set (country_rows ns). row_n r = length (filter (\<lambda>d. country_key d = row_country r) ns)"
    using row_count by blast
  have c6: "length schemeTableau10 = 10" "distinct schemeTableau10" "FALLBACK_GRAY \<notin> set schemeTableau10"
    using palette_facts by blast+
  have c7: "\<forall>j<length (top10 ns). color (color_domain ns) (top10 ns ! j) = (schemeTableau10 ! j, color_domain ns)"
    by (simp add: color_domain_top10 color_nth[OF distinct_top10 _ length_top10])
  have c8: "distinct (map (\<lambda>c. fst (color (color_domain ns) c)) (top10 ns))"
    by (rule top10_colors_distinct)
  have c9: "map fst (legend ns) = take (length (top10 ns)) schemeTableau10"
    by (rule legend_swatches)
  have c10: "\<forall>i<length ns. country_key (ns ! i) \<notin> set (top10 ns) \<longrightarrow> fill_colors ns ! i = FALLBACK_GRAY"
    by (simp add: fill_colors_map fill_outside)
  have c11: "\<forall>i<length ns. \<forall>j<length (top10 ns).
         n_country (ns ! i) = Some (top10 ns ! j) \<longrightarrow> fill_colors ns ! i = schemeTableau10 ! j"
    by (simp add: fill_colors_map fill_inside)
  from c1 c2 c3 c4 c5 c6 c7 c8 c9 c10 c11 show ?thesis
    by (intro conjI)
qed

theorem top10_sorted_and_colored_witness:
  "top10 (derive_nodes twelve_authors) =
     [''NG'', ''GH'', ''KE'', ''ZA'', ''EG'', ''US'', ''GB'', ''FR'', ''DE'', ''CN'']
   \<and> country_key (derive_nodes twelve_authors ! 11) \<notin> set (top10 (derive_nodes twelve_authors))
   \<and> fill_colors (derive_nodes twelve_authors) ! 11 = FALLBACK_GRAY
   \<and> n_country (derive_nodes twelve_authors ! 0) = Some (top10 (derive_nodes twelve_authors) ! 1)
   \<and> fill_colors (derive_nodes twelve_authors) ! 0 = schemeTableau10 ! 1
   \<and> color (color_domain (derive_nodes twelve_authors)) (top10 (derive_nodes twelve_authors) ! 9)
       = (schemeTableau10 ! 9, color_domain (derive_nodes twelve_authors))
   \<and> \<lparr>row_country = ''NG'', row_n = 2\<rparr> \<in> set (country_rows (derive_nodes twelve_authors))"
proof -
  let ?ns = "derive_nodes twelve_authors"
  note t = top10_sorted_and_colored[of ?ns 1]
  have w1: "top10 ?ns = [''NG'', ''GH'', ''KE'', ''ZA'', ''EG'', ''US'', ''GB'', ''FR'', ''DE'', ''CN'']"
    by code_simp
  have len: "length ?ns = 12"
    by (simp add: length_derive_nodes twelve_authors_def)
  have lt: "length (top10 ?ns) = 10"
    by (simp add: w1)
  have w2: "country_key (?ns ! 11) \<notin> set (top10 ?ns)"
    by code_simp
  have w4: "n_country (?ns ! 0) = Some (top10 ?ns ! 1)"
    by code_simp
  have w7: "\<lparr>row_country = ''NG'', row_n = 2\<rparr> \<in> set (country_rows ?ns)"
    by code_simp
  from t have "\<forall>i<length ?ns. country_key (?ns ! i) \<notin> set (top10 ?ns) \<longrightarrow> fill_colors ?ns ! i = FALLBACK_GRAY"
    by (elim conjE)
  with w2 len have w3: "fill_colors ?ns ! 11 = FALLBACK_GRAY"
    by simp
  from t have "\<forall>i<length ?ns. \<forall>j<length (top10 ?ns).
         n_country (?ns ! i) = Some (top10 ?ns ! j) \<longrightarrow> fill_colors ?ns ! i = schemeTableau10 ! j"
    by (elim conjE)
  with w4 len lt have w5: "fill_colors ?ns ! 0 = schemeTableau10 ! 1"
    by simp
  from t have "\<forall>j<length (top10 ?ns). color (color_domain ?ns) (top10 ?ns ! j) = (schemeTableau10 ! j, color_domain ?ns)"
    by (elim conjE)
  with lt have w6: "color (color_domain ?ns) (top10 ?ns ! 9) = (schemeTableau10 ! 9, color_domain ?ns)"
    by simp
  from w1 w2 w3 w4 w5 w6 w7 show ?thesis by (intro conjI)
qed

subsection \<open>One shared country\<close>

lemma distinct_singleton: "distinct ks \<Longrightarrow> set ks = {c} \<Longrightarrow> ks = [c]"
proof (cases ks)
  case Nil
  assume "set ks = {c}"
  with Nil show ?thesis by simp
next
  case (Cons k rest)
  assume d: "distinct ks" and s: "set ks = {c}"
  from Cons s have k: "k = c" by auto
  from Cons d s k have "set rest \<subseteq> {c} \<and> c \<notin> set rest" by auto
  then have "rest = []" by (cases rest) auto
  with Cons k show ?thesis by simp
qed

text \<open>
  What holds of the shared-country case: when all nodes carry the same non-empty country
  string, that country is the whole top-10 set and every node is filled with the first
  palette colour, which is not the fallback gray.
\<close>

lemma shared_country_colored:
  assumes ne: "ns \<noteq> []" and all: "\<forall>d\<in>set ns. n_country d = Some c" and c: "c \<noteq> []"
  shows "top10 ns = [c]
     \<and> fill_colors ns = replicate (length ns) (schemeTableau10 ! 0)
     \<and> schemeTableau10 ! 0 \<noteq> FALLBACK_GRAY"
proof -
  from all c have "\<forall>d\<in>set ns. country_key d = c"
    by (simp add: country_key_def)
  with ne have keys: "country_key ` set ns = {c}"
    by (cases ns) auto
  have "set (map row_country (sortedCountries ns)) = country_key ` set ns"
    by (simp only: set_map set_sorted_rows) (simp only: set_map[symmetric] rows_first_seen set_rev set_remdups)
  with keys distinct_sorted_rows[of ns] have "map row_country (sortedCountries ns) = [c]"
    by (intro distinct_singleton) simp_all
  then have t: "top10 ns = [c]"
    by (simp add: top10_take)
  have "fst (node_fill (top10 ns) (top10 ns) d) = schemeTableau10 ! 0" if "d \<in> set ns" for d
    using that all t by (intro fill_inside) simp_all
  then have "fill_colors ns = replicate (length ns) (schemeTableau10 ! 0)"
    by (simp add: fill_colors_map map_replicate_const[symmetric])
  moreover have "schemeTableau10 ! 0 \<noteq> FALLBACK_GRAY"
    by (simp add: schemeTableau10_def FALLBACK_GRAY_def)
  ultimately show ?thesis using t by simp
qed

text \<open>
  Claim C5. The claim includes the case where the shared country is the default
  \<^verbatim>\<open>'Unknown'\<close> of nodes without a country. There the grouping of line 28 uses
  \<^verbatim>\<open>d.country || 'Unknown'\<close>, so the top-10 set is the one entry \<^verbatim>\<open>'Unknown'\<close>, to which the
  scale and the legend give the first palette colour; but the fill of line 80 asks
  \<^verbatim>\<open>top10.has(d.country)\<close> with the raw, absent field, and the node is drawn in the fallback
  gray. Evaluated on a document of one author without a country.
\<close>

theorem unknown_country_filled_gray:
  "top10 (derive_nodes lone_author) = [''Unknown'']
   \<and> fst (color (color_domain (derive_nodes lone_author)) ''Unknown'') = ''#4e79a7''
   \<and> legend_items (render lone_author) = [(''#4e79a7'', ''Unknown'', 1)]
   \<and> fill_colors (derive_nodes lone_author) = [''#A9A9A9'']
   \<and> map snd (circles (render lone_author)) = [FALLBACK_GRAY]"
proof -
  have a: "top10 (derive_nodes lone_author) = [''Unknown'']"
    by code_simp
  have b: "fst (color (color_domain (derive_nodes lone_author)) ''Unknown'') = ''#4e79a7''"
    by code_simp
  have "legend (derive_nodes lone_author) = [(''#4e79a7'', ''Unknown'', 1)]"
    by code_simp
  then have c: "legend_items (render lone_author) = [(''#4e79a7'', ''Unknown'', 1)]"
    by (simp add: render_def Let_def)
  have d: "fill_colors (derive_nodes lone_author) = [''#A9A9A9'']"
    by code_simp
  have "length (radii (derive_nodes lone_author)) = 1"
    by (simp add: radii_def length_derive_nodes lone_author_def)
  with d have e: "map snd (circles (render lone_author)) = [FALLBACK_GRAY]"
    by (simp add: render_def Let_def FALLBACK_GRAY_def)
  from a b c d e show ?thesis by (intro conjI)
qed

subsection \<open>Loading\<close>

lemma callback_unbound: "globals ''raw'' = None \<Longrightarrow> callback globals graph = Inl (ReferenceError ''raw'')"
  by (simp add: callback_def resolve_def)

lemma callback_bound: "globals ''raw'' = Some doc \<Longrightarrow> callback globals graph = Inr (render doc)"
  by (simp add: callback_def resolve_def)

text \<open>
  Claim C1. The claim is that after a successful fetch the callback completes and draws the
  graph. The callback's parameter is \<^verbatim>\<open>graph\<close> and its body reads \<^verbatim>\<open>raw\<close>: with no binding
  of \<^verbatim>\<open>raw\<close> around it, the callback stops with a reference error at its first statement
  and nothing is drawn, whatever the document. Evaluated on the one-author document.
\<close>

theorem successful_load_throws:
  "callback Map.empty lone_author = Inl (ReferenceError ''raw'')
   \<and> main Map.empty (Fulfilled lone_author) =
       \<lparr>drawn = None, message = None, unhandled = Some (Thrown (ReferenceError ''raw''))\<rparr>"
  by (simp add: main_def callback_def resolve_def)

text \<open>
  Claim C2 as stated fails: after a rejected load the page shows no message.
\<close>

theorem load_failure_not_surfaced:
  "\<not> surfaced (main (Map.empty :: string scope) (Rejected ''HTTP 404''))"
  by (simp add: surfaced_def main_def)

text \<open>
  Claim C2, amended. When loading or parsing fails, the callback is not run: nothing is drawn
  (no circle, line or legend item), no message is shown, and the rejection is left
  unobserved.
\<close>

theorem load_failure_draws_nothing:
  "main globals (Rejected why) = \<lparr>drawn = None, message = None, unhandled = Some (LoadFailed why)\<rparr>
   \<and> \<not> surfaced (main globals (Rejected why))"
  by (simp add: surfaced_def main_def)

subsection \<open>Tooltip\<close>

lemma digit_char_val: "k < 10 \<Longrightarrow> digit_val (digit_char k) = k"
proof -
  assume "k < 10"
  then have "k \<in> {0, 1, 2, 3, 4, 5, 6, 7, 8, 9}" by auto
  then show ?thesis
    by (auto simp: digit_val_def digit_char_def)
qed

lemma digit_char_set: "k < 10 \<Longrightarrow> digit_char k \<in> set ''0123456789''"
  unfolding digit_char_def by (rule nth_mem) simp

lemma read_nat_snoc: "read_nat (cs @ [c]) = 10 * read_nat cs + digit_val c"
  by (simp add: read_nat_def)

lemma read_show_nat: "read_nat (show_nat k) = k"
proof (induction k rule: show_nat.induct)
  case (1 k)
  show ?case
  proof (cases "k < 10")
    case True
    then show ?thesis
      by (subst show_nat.simps) (simp add: read_nat_def digit_char_val)
  next
    case False
    with 1 have "read_nat (show_nat (k div 10)) = k div 10" by simp
    with False show ?thesis
      by (subst show_nat.simps) (simp add: read_nat_snoc digit_char_val)
  qed
qed

lemma show_nat_digits: "show_nat k \<noteq> [] \<and> set (show_nat k) \<subseteq> set ''0123456789''"
proof (induction k rule: show_nat.induct)
  case (1 k)
  show ?case
  proof (cases "k < 10")
    case True
    then show ?thesis
      using digit_char_set[of k] by (subst (1 2) show_nat.simps) simp
  next
    case False
    with 1 have "set (show_nat (k div 10)) \<subseteq> set ''0123456789''" by simp
    moreover have "digit_char (k mod 10) \<in> set ''0123456789''"
      by (rule digit_char_set) simp
    ultimately show ?thesis
      using False by (subst (1 2) show_nat.simps) simp
  qed
qed

lemma join_snoc: "ts \<noteq> [] \<Longrightarrow> join sep (ts @ [t]) = join sep ts @ sep @ t"
  by (induction sep ts rule: join.induct) auto

text \<open>The tooltip text always ends with the degree line.\<close>

lemma tooltip_html_degree:
  "\<exists>pre. tooltip_html show_id d = pre @ ''Degree: '' @ show_nat (degree d)"
proof -
  let ?first = "''<strong>'' @ (case n_name d of None \<Rightarrow> show_id (n_id d) | Some s \<Rightarrow> s) @ ''</strong>''"
  let ?last = "''Degree: '' @ show_nat (degree d)"
  define mid where "mid = filter (\<lambda>t. t \<noteq> [])
      [(case n_affiliation d of None \<Rightarrow> [] | Some s \<Rightarrow> if s = [] then [] else s),
       (case n_country d of None \<Rightarrow> [] | Some c \<Rightarrow> if c = [] then [] else ''Country: '' @ c)]"
  have f: "filter (\<lambda>t. t \<noteq> []) (tooltip_lines show_id d) = (?first # mid) @ [?last]"
    by (simp add: tooltip_lines_def mid_def)
  have "join ''<br/>'' ((?first # mid) @ [?last]) = join ''<br/>'' (?first # mid) @ ''<br/>'' @ ?last"
    by (rule join_snoc) simp
  with f have "tooltip_html show_id d = (join ''<br/>'' (?first # mid) @ ''<br/>'') @ ?last"
    by (simp add: tooltip_html_def)
  then show ?thesis by blast
qed

lemma node_click_shows:
  "tip_hidden (node_click show_id event d u) = False
   \<and> tip_html (node_click show_id event d u) = tooltip_html show_id d
   \<and> listener (node_click show_id event d u) = Some event"
  by (simp add: node_click_def)

text \<open>
  With a listener installed, the next click inside the body that is not on a circle hides
  the tooltip and empties the slot, wherever it lands.
\<close>

lemma next_click_dismisses:
  assumes "listener u = Some event" "BodyEl \<in> set (path e)" "\<forall>i rest. path e \<noteq> CircleEl i # rest"
  shows "tip_hidden (dispatch_click show_id ns e u) = True \<and> listener (dispatch_click show_id ns e u) = None"
  using assms
  by (auto simp: dispatch_click_def body_listener_def composedPath_def Let_def
           split: list.splits element.splits)

text \<open>
  Claim C7. A click on a node shows the tooltip, whose text ends with the node's degree in
  decimal digits, and installs the one-shot listener; so far the claim holds. The claim also
  says that a click inside the tooltip does not dismiss it. The listener's test reads the
  captured \<^verbatim>\<open>event\<close> of the node click instead of its own parameter \<^verbatim>\<open>e\<close>, so where the
  next click lands plays no part: evaluated on a click on the first node of the two-author
  document followed by a click inside the tooltip, the tooltip ends hidden.
\<close>

theorem click_inside_tooltip_dismisses:
  "tip_hidden (dispatch_click (\<lambda>i. i) (derive_nodes two_authors) (click_on [CircleEl 0, ChartEl, BodyEl]) closed_ui) = False
   \<and> tip_html (dispatch_click (\<lambda>i. i) (derive_nodes two_authors) (click_on [CircleEl 0, ChartEl, BodyEl]) closed_ui)
       = ''<strong>a</strong><br/>Degree: 1''
   \<and> listener (dispatch_click (\<lambda>i. i) (derive_nodes two_authors) (click_on [CircleEl 0, ChartEl, BodyEl]) closed_ui)
       = Some (click_on [CircleEl 0, ChartEl, BodyEl])
   \<and> tip_hidden (dispatch_click (\<lambda>i. i) (derive_nodes two_authors) (click_on [TooltipEl, BodyEl])
        (dispatch_click (\<lambda>i. i) (derive_nodes two_authors) (click_on [CircleEl 0, ChartEl, BodyEl]) closed_ui)) = True
   \<and> listener (dispatch_click (\<lambda>i. i) (derive_nodes two_authors) (click_on [TooltipEl, BodyEl])
        (dispatch_click (\<lambda>i. i) (derive_nodes two_authors) (click_on [CircleEl 0, ChartEl, BodyEl]) closed_ui)) = None"
proof -
  let ?ns = "derive_nodes two_authors"
  let ?c1 = "click_on [CircleEl 0, ChartEl, BodyEl]"
  let ?c2 = "click_on [TooltipEl, BodyEl]"
  have d0: "?ns ! 0 = \<lparr>n_id = ''a'', n_name = None, n_affiliation = None, n_country = None, degree = 1\<rparr>"
    by code_simp
  have len: "length ?ns = 2"
    by (simp add: length_derive_nodes two_authors_def)
  have u1: "dispatch_click (\<lambda>i. i) ?ns ?c1 closed_ui = node_click (\<lambda>i. i) ?c1 (?ns ! 0) closed_ui"
    using len by (simp add: dispatch_click_def closed_ui_def click_on_def)
  have html: "tooltip_html (\<lambda>i. i) (?ns ! 0) = ''<strong>a</strong><br/>Degree: 1''"
    unfolding d0 by (simp add: tooltip_html_def tooltip_lines_def digit_char_def show_nat.simps)
  have a: "tip_hidden (dispatch_click (\<lambda>i. i) ?ns ?c1 closed_ui) = False"
    unfolding u1 by (simp add: node_click_def)
  have b: "tip_html (dispatch_click (\<lambda>i. i) ?ns ?c1 closed_ui) = ''<strong>a</strong><br/>Degree: 1''"
    unfolding u1 using html by (simp add: node_click_def)
  have c: "listener (dispatch_click (\<lambda>i. i) ?ns ?c1 closed_ui) = Some ?c1"
    unfolding u1 by (simp add: node_click_def)
  have "tip_hidden (dispatch_click (\<lambda>i. i) ?ns ?c2 (dispatch_click (\<lambda>i. i) ?ns ?c1 closed_ui)) = True
      \<and> listener (dispatch_click (\<lambda>i. i) ?ns ?c2 (dispatch_click (\<lambda>i. i) ?ns ?c1 closed_ui)) = None"
    using c by (intro next_click_dismisses) (simp_all add: click_on_def)
  with a b c show ?thesis by (intro conjI) simp_all
qed

subsection \<open>Tick\<close>

lemma clamp_body_bounds:
  "6 \<le> pos_x (clamp_body pg b) \<and> 6 \<le> pos_y (clamp_body pg b)
   \<and> (12 \<le> chart_width pg \<longrightarrow> pos_x (clamp_body pg b) \<le> WIDTH pg - 6)
   \<and> (12 \<le> chart_height pg \<longrightarrow> pos_y (clamp_body pg b) \<le> HEIGHT pg - 6)
   \<and> (chart_width pg < 12 \<longrightarrow> pos_x (clamp_body pg b) = 6)
   \<and> (chart_height pg < 12 \<longrightarrow> pos_y (clamp_body pg b) = 6)"
  by (auto simp: clamp_body_def WIDTH_def HEIGHT_def)

text \<open>
  Claim C8 as stated fails in a viewport narrower than 12 pixels: with a width of 10 the
  interval from 6 to width - 6 is empty, and the clamp, whose lower bound is applied last,
  puts the node at 6.
\<close>

theorem narrow_viewport_escapes_margin:
  "circle_pos (tick narrow_page [] [body_at 0 0]) = [(6, 6)]
   \<and> \<not> (6 \<le> fst (circle_pos (tick narrow_page [] [body_at 0 0]) ! 0)
        \<and> fst (circle_pos (tick narrow_page [] [body_at 0 0]) ! 0) \<le> WIDTH narrow_page - 6)"
  by (simp add: tick_def clamp_body_def narrow_page_def body_at_def WIDTH_def HEIGHT_def Let_def)

text \<open>
  Claim C8, amended. On every tick, whatever the step did (free movement or a pinned
  position set by a drag), each circle is drawn at its node's new position, whose
  coordinates are at least 6; when the viewport is at least 12 pixels wide the x coordinate is
  at most width - 6, and when it is at least 12 pixels high the y coordinate is at most
  height - 6; in a smaller viewport the coordinate is 6.
\<close>

theorem tick_clamps_positions:
  "circle_pos (tick pg ends (map (sim_step free) bs))
     = map (\<lambda>b. (pos_x b, pos_y b)) (bodies_after (tick pg ends (map (sim_step free) bs)))
   \<and> length (circle_pos (tick pg ends (map (sim_step free) bs))) = length bs
   \<and> (\<forall>p\<in>set (circle_pos (tick pg ends (map (sim_step free) bs))).
        6 \<le> fst p \<and> 6 \<le> snd p
        \<and> (12 \<le> chart_width pg \<longrightarrow> fst p \<le> WIDTH pg - 6)
        \<and> (12 \<le> chart_height pg \<longrightarrow> snd p \<le> HEIGHT pg - 6)
        \<and> (chart_width pg < 12 \<longrightarrow> fst p = 6)
        \<and> (chart_height pg < 12 \<longrightarrow> snd p = 6))"
proof -
  let ?f = "tick pg ends (map (sim_step free) bs)"
  have a: "circle_pos ?f = map (\<lambda>b. (pos_x b, pos_y b)) (bodies_after ?f)"
    by (simp add: tick_def Let_def)
  have b: "length (circle_pos ?f) = length bs"
    by (simp add: tick_def Let_def)
  have c: "\<forall>p\<in>set (circle_pos ?f).
        6 \<le> fst p \<and> 6 \<le> snd p
        \<and> (12 \<le> chart_width pg \<longrightarrow> fst p \<le> WIDTH pg - 6)
        \<and> (12 \<le> chart_height pg \<longrightarrow> snd p \<le> HEIGHT pg - 6)
        \<and> (chart_width pg < 12 \<longrightarrow> fst p = 6)
        \<and> (chart_height pg < 12 \<longrightarrow> snd p = 6)"
  proof
    fix p assume "p \<in> set (circle_pos ?f)"
    then obtain b0 where p: "p = (pos_x (clamp_body pg b0), pos_y (clamp_body pg b0))"
      by (auto simp: tick_def Let_def)
    show "6 \<le> fst p \<and> 6 \<le> snd p
        \<and> (12 \<le> chart_width pg \<longrightarrow> fst p \<le> WIDTH pg - 6)
        \<and> (12 \<le> chart_height pg \<longrightarrow> snd p \<le> HEIGHT pg - 6)
        \<and> (chart_width pg < 12 \<longrightarrow> fst p = 6)
        \<and> (chart_height pg < 12 \<longrightarrow> snd p = 6)"
      unfolding p fst_conv snd_conv by (rule clamp_body_bounds)
  qed
  from a b c show ?thesis by (intro conjI)
qed

theorem tick_clamps_positions_witness:
  "12 \<le> chart_width wide_page \<and> 12 \<le> chart_height wide_page
   \<and> circle_pos (tick wide_page []
        (map (sim_step (\<lambda>b. (0, 0))) [\<lparr>pos_x = 100, pos_y = 100, fx = Some 900, fy = Some (- 5)\<rparr>]))
       = [(794, 6)]
   \<and> (794 :: real) \<le> WIDTH wide_page - 6
   \<and> (6 :: real) \<le> HEIGHT wide_page - 6"
proof -
  let ?bs = "[\<lparr>pos_x = 100, pos_y = 100, fx = Some 900, fy = Some (- 5)\<rparr>]"
  let ?f = "tick wide_page [] (map (sim_step (\<lambda>b. (0, 0))) ?bs)"
  have w: "12 \<le> chart_width wide_page" "12 \<le> chart_height wide_page"
    by (simp_all add: wide_page_def)
  have e: "circle_pos ?f = [(794, 6)]"
    by (simp add: tick_def clamp_body_def sim_step_def wide_page_def WIDTH_def HEIGHT_def Let_def)
  from tick_clamps_positions[of wide_page "[]" "\<lambda>b. (0, 0)" ?bs]
  have "\<forall>p\<in>set (circle_pos ?f).
        6 \<le> fst p \<and> 6 \<le> snd p
        \<and> (12 \<le> chart_width wide_page \<longrightarrow> fst p \<le> WIDTH wide_page - 6)
        \<and> (12 \<le> chart_height wide_page \<longrightarrow> snd p \<le> HEIGHT wide_page - 6)
        \<and> (chart_width wide_page < 12 \<longrightarrow> fst p = 6)
        \<and> (chart_height wide_page < 12 \<longrightarrow> snd p = 6)"
    by (elim conjE)
  with e w have "(794 :: real) \<le> WIDTH wide_page - 6" "(6 :: real) \<le> HEIGHT wide_page - 6"
    by simp_all
  with w e show ?thesis by (intro conjI)
qed

subsection \<open>Drag\<close>

lemma drag_step_target:
  assumes "alphaTarget (sim w) = (if 0 < active w then 3 / 10 else 0)"
  shows "alphaTarget (sim (drag_step w g)) = (if 0 < active (drag_step w g) then 3 / 10 else 0)"
  using assms
  by (cases g) (auto simp: handle_def dragstarted_def dragged_def dragended_def split: prod.splits)

lemma drag_run_target:
  "alphaTarget (sim w) = (if 0 < active w then 3 / 10 else 0) \<Longrightarrow>
   alphaTarget (sim (drag_run w gs)) = (if 0 < active (drag_run w gs) then 3 / 10 else 0)"
  unfolding drag_run_def
  by (induction gs arbitrary: w) (simp_all add: drag_step_target)

lemma initial_world_target:
  "alphaTarget (sim (initial_world pg bs)) = 0 \<and> active (initial_world pg bs) = 0
   \<and> bodies (initial_world pg bs) = bs"
  by (simp add: initial_world_def createSimulation_def)

text \<open>
  Claim C9. Pointer-down on a node pins it at its current position, a move sets the pinned
  position to the pointer's, and pointer-up clears the pinned position. From the state the
  callback leaves, after any sequence of gestures the energy target is 0.3 exactly while some
  gesture is in progress and 0 otherwise: one press raises it, and the release that ends the
  last gesture restores it.
\<close>

theorem drag_fix_release:
  "(i < length (bodies w) \<longrightarrow>
      bodies (drag_step w (PointerDown i)) ! i
        = (bodies w ! i)\<lparr>fx := Some (pos_x (bodies w ! i)), fy := Some (pos_y (bodies w ! i))\<rparr>)
   \<and> (i < length (bodies w) \<and> 0 < active w \<longrightarrow>
      bodies (drag_step w (PointerMove i px py)) ! i = (bodies w ! i)\<lparr>fx := Some px, fy := Some py\<rparr>)
   \<and> (i < length (bodies w) \<and> 0 < active w \<longrightarrow>
      bodies (drag_step w (PointerUp i)) ! i = (bodies w ! i)\<lparr>fx := None, fy := None\<rparr>)
   \<and> alphaTarget (sim (drag_run (initial_world pg bs) gs))
        = (if 0 < active (drag_run (initial_world pg bs) gs) then 3 / 10 else 0)
   \<and> (i < length bs \<longrightarrow>
        alphaTarget (sim (drag_run (initial_world pg bs) [PointerDown i])) = 3 / 10
        \<and> alphaTarget (sim (drag_run (initial_world pg bs) [PointerDown i, PointerMove i px py])) = 3 / 10
        \<and> alphaTarget (sim (drag_run (initial_world pg bs) [PointerDown i, PointerMove i px py, PointerUp i])) = 0
        \<and> bodies (drag_run (initial_world pg bs) [PointerDown i, PointerMove i px py, PointerUp i]) ! i
             = (bs ! i)\<lparr>fx := None, fy := None\<rparr>)"
proof -
  have a: "i < length (bodies w) \<longrightarrow>
      bodies (drag_step w (PointerDown i)) ! i
        = (bodies w ! i)\<lparr>fx := Some (pos_x (bodies w ! i)), fy := Some (pos_y (bodies w ! i))\<rparr>"
    by (simp add: handle_def dragstarted_def)
  have b: "i < length (bodies w) \<and> 0 < active w \<longrightarrow>
      bodies (drag_step w (PointerMove i px py)) ! i = (bodies w ! i)\<lparr>fx := Some px, fy := Some py\<rparr>"
    by (simp add: handle_def dragged_def)
  have c: "i < length (bodies w) \<and> 0 < active w \<longrightarrow>
      bodies (drag_step w (PointerUp i)) ! i = (bodies w ! i)\<lparr>fx := None, fy := None\<rparr>"
    by (simp add: handle_def dragended_def)
  have d: "alphaTarget (sim (drag_run (initial_world pg bs) gs))
        = (if 0 < active (drag_run (initial_world pg bs) gs) then 3 / 10 else 0)"
    by (rule drag_run_target) (simp add: initial_world_target)
  have e: "i < length bs \<longrightarrow>
        alphaTarget (sim (drag_run (initial_world pg bs) [PointerDown i])) = 3 / 10
        \<and> alphaTarget (sim (drag_run (initial_world pg bs) [PointerDown i, PointerMove i px py])) = 3 / 10
        \<and> alphaTarget (sim (drag_run (initial_world pg bs) [PointerDown i, PointerMove i px py, PointerUp i])) = 0
        \<and> bodies (drag_run (initial_world pg bs) [PointerDown i, PointerMove i px py, PointerUp i]) ! i
             = (bs ! i)\<lparr>fx := None, fy := None\<rparr>"
    by (simp add: drag_run_def initial_world_def createSimulation_def handle_def
          dragstarted_def dragged_def dragended_def)
  from a b c d e show ?thesis by (intro conjI)
qed

theorem drag_fix_release_witness:
  "0 < length (bodies (initial_world wide_page [body_at 100 100]))
   \<and> bodies (drag_step (initial_world wide_page [body_at 100 100]) (PointerDown 0)) ! 0
       = \<lparr>pos_x = 100, pos_y = 100, fx = Some 100, fy = Some 100\<rparr>
   \<and> 0 < active (drag_step (initial_world wide_page [body_at 100 100]) (PointerDown 0))
   \<and> bodies (drag_step (drag_step (initial_world wide_page [body_at 100 100]) (PointerDown 0))
        (PointerMove 0 900 (- 5))) ! 0
       = \<lparr>pos_x = 100, pos_y = 100, fx = Some 900, fy = Some (- 5)\<rparr>
   \<and> alphaTarget (sim (drag_run (initial_world wide_page [body_at 100 100]) [PointerDown 0])) = 3 / 10
   \<and> alphaTarget (sim (drag_run (initial_world wide_page [body_at 100 100])
        [PointerDown 0, PointerMove 0 900 (- 5), PointerUp 0])) = 0"
proof -
  let ?w0 = "initial_world wide_page [body_at 100 100]"
  let ?w1 = "drag_step ?w0 (PointerDown 0)"
  have b0: "bodies ?w0 = [body_at 100 100]"
    by (simp add: initial_world_def)
  have h0: "0 < length (bodies ?w0)"
    by (simp add: b0)
  have l1: "0 < length (bodies ?w1)" and a1: "0 < active ?w1"
    by (simp_all add: initial_world_def handle_def dragstarted_def)
  from drag_fix_release[of 0 ?w0 900 "- 5" wide_page "[body_at 100 100]" "[]"] h0
  have "bodies ?w1 ! 0 = (bodies ?w0 ! 0)\<lparr>fx := Some (pos_x (bodies ?w0 ! 0)), fy := Some (pos_y (bodies ?w0 ! 0))\<rparr>"
    by blast
  then have r1: "bodies ?w1 ! 0 = \<lparr>pos_x = 100, pos_y = 100, fx = Some 100, fy = Some 100\<rparr>"
    by (simp add: initial_world_target body_at_def)
  from drag_fix_release[of 0 ?w1 900 "- 5" wide_page "[body_at 100 100]" "[]"] l1 a1
  have "bodies (drag_step ?w1 (PointerMove 0 900 (- 5))) ! 0 = (bodies ?w1 ! 0)\<lparr>fx := Some 900, fy := Some (- 5)\<rparr>"
    by blast
  then have r2: "bodies (drag_step ?w1 (PointerMove 0 900 (- 5))) ! 0
       = \<lparr>pos_x = 100, pos_y = 100, fx = Some 900, fy = Some (- 5)\<rparr>"
    by (simp add: r1 del: drag_step.simps)
  from drag_fix_release[of 0 ?w0 900 "- 5" wide_page "[body_at 100 100]" "[]"]
  have r3: "alphaTarget (sim (drag_run ?w0 [PointerDown 0])) = 3 / 10"
    and r4: "alphaTarget (sim (drag_run ?w0 [PointerDown 0, PointerMove 0 900 (- 5), PointerUp 0])) = 0"
    by simp_all
  from h0 r1 a1 r2 r3 r4 show ?thesis by (intro conjI)
qed

subsection \<open>Resize\<close>

text \<open>
  Claim C10. After the resize listener has run, the centre of the centering force is exactly
  half the new width and half the new height of the chart, the view box is the new size, and
  the simulation runs again with its energy set to 0.3, which is not zero. The nodes and the
  energy target are left as they were.
\<close>

theorem resize_recenters:
  "center (sim (on_resize pg w)) = (real (chart_width pg) / 2, real (chart_height pg) / 2)
   \<and> alpha (sim (on_resize pg w)) = 3 / 10
   \<and> alpha (sim (on_resize pg w)) \<noteq> 0
   \<and> running (sim (on_resize pg w))
   \<and> viewBox (on_resize pg w) = (0, 0, real (chart_width pg), real (chart_height pg))
   \<and> alphaTarget (sim (on_resize pg w)) = alphaTarget (sim w)
   \<and> bodies (on_resize pg w) = bodies w"
  by (simp add: on_resize_def WIDTH_def HEIGHT_def)

end
